theory Spec2Isabelle
  imports Complex_Main "HOL-Library.List_Lexorder" "HOL-Library.Sublist"
begin

section \<open>Data model of app.py\<close>

text \<open>
  A Python \<open>str\<close> is a sequence of Unicode code points. The labels of the application are
  Thai, so a string is modelled as the list of its code points; this is also the order
  Python compares strings by (lexicographic on code points).
\<close>

type_synonym ustr = "nat list"

text \<open>The two transaction types offered by the selectbox of line 79.\<close>

definition lbl_income :: ustr where
  \<comment> \<open>"rai rap" (income), the literal of lines 49, 62, 79, 85, 136, 177, 179\<close>
  "lbl_income = [0x0E23, 0x0E32, 0x0E22, 0x0E23, 0x0E31, 0x0E1A]"

definition lbl_expense :: ustr where
  \<comment> \<open>"rai chai" (expense), the literal of lines 79, 137, 177, 180\<close>
  "lbl_expense = [0x0E23, 0x0E32, 0x0E22, 0x0E08, 0x0E48, 0x0E32, 0x0E22]"

text \<open>The five category labels of lines 86 and 88.\<close>

definition cat_daily_income :: ustr where
  \<comment> \<open>"ngoen rai wan"\<close>
  "cat_daily_income =
     [0x0E40, 0x0E07, 0x0E34, 0x0E19, 0x0E23, 0x0E32, 0x0E22, 0x0E27, 0x0E31, 0x0E19]"

definition cat_other_income :: ustr where
  \<comment> \<open>"rai dai uen uen"\<close>
  "cat_other_income =
     [0x0E23, 0x0E32, 0x0E22, 0x0E44, 0x0E14, 0x0E49, 0x0E2D, 0x0E37, 0x0E48, 0x0E19, 0x0E46]"

definition cat_food :: ustr where
  \<comment> \<open>"kha ahan"\<close>
  "cat_food = [0x0E04, 0x0E48, 0x0E32, 0x0E2D, 0x0E32, 0x0E2B, 0x0E32, 0x0E23]"

definition cat_travel :: ustr where
  \<comment> \<open>"kha doen thang"\<close>
  "cat_travel =
     [0x0E04, 0x0E48, 0x0E32, 0x0E40, 0x0E14, 0x0E34, 0x0E19, 0x0E17, 0x0E32, 0x0E07]"

definition cat_other_expense :: ustr where
  \<comment> \<open>"kha chai chai uen uen"\<close>
  "cat_other_expense =
     [0x0E04, 0x0E48, 0x0E32, 0x0E43, 0x0E0A, 0x0E49, 0x0E08, 0x0E48, 0x0E32, 0x0E22,
      0x0E2D, 0x0E37, 0x0E48, 0x0E19, 0x0E46]"

text \<open>
  A value of the date column after \<open>pd.to_datetime\<close>: a timestamp (an integer count of
  time units) or the sentinel \<open>NaT\<close>.
\<close>

datatype datetime = NaT | Timestamp int

text \<open>
  One row of the DataFrame \<open>st.session_state.df\<close>, with its five columns in the order of
  line 34. The category and the description of a row read from a file may be missing
  (\<open>None\<close>: pandas reads an empty field as a missing value); the type is a string that is
  compared with the two labels, any other value matching neither. Amounts are taken as
  exact decimals: the rounding of binary floating point is outside this model.
\<close>

record transaction =
  col_date :: datetime
  col_type :: ustr
  col_category :: "ustr option"
  col_description :: "ustr option"
  col_amount :: rat

text \<open>The DataFrame is the list of its rows in index order.\<close>

type_synonym ledger = "transaction list"

section \<open>Aggregation (lines 136-137 and 161-163)\<close>

text \<open>
  \<open>df[df[type] == label]\<close>: selection by a boolean mask keeps the rows where the mask holds,
  in index order.
\<close>

definition income_df :: "ledger \<Rightarrow> ledger" where
  "income_df df = filter (\<lambda>r. col_type r = lbl_income) df"

definition expense_df :: "ledger \<Rightarrow> ledger" where
  "expense_df df = filter (\<lambda>r. col_type r = lbl_expense) df"

text \<open>\<open>Series.sum()\<close> of the amount column: the amounts are accumulated row by row from 0.\<close>

definition column_sum :: "ledger \<Rightarrow> rat" where
  "column_sum rs = fold (\<lambda>r acc. acc + col_amount r) rs 0"

text \<open>\<open>x[amount].sum() if not x.empty else 0\<close>, the expression of lines 161 and 162.\<close>

definition total_of :: "ledger \<Rightarrow> rat" where
  "total_of rs = (if rs \<noteq> [] then column_sum rs else 0)"

definition total_income :: "ledger \<Rightarrow> rat" where
  "total_income df = total_of (income_df df)"

definition total_expense :: "ledger \<Rightarrow> rat" where
  "total_expense df = total_of (expense_df df)"

definition balance :: "ledger \<Rightarrow> rat" where
  "balance df = total_income df - total_expense df"

section \<open>Per-category sums and the chart series (lines 177-185)\<close>

text \<open>
  A pandas Series indexed by category, such as the result of a group-by: the list of its
  (label, value) pairs in index order.
\<close>

type_synonym series = "(ustr \<times> rat) list"

text \<open>Adding one amount to the group of its category; a category seen first opens a group.\<close>

fun add_to_group :: "ustr \<Rightarrow> rat \<Rightarrow> series \<Rightarrow> series" where
  "add_to_group c a [] = [(c, a)]"
| "add_to_group c a ((k, v) # gs) =
     (if k = c then (k, v + a) # gs else (k, v) # add_to_group c a gs)"

text \<open>
  \<open>rows.groupby(category)[amount].sum()\<close>: every row is added to the group of its category, a
  row whose category is missing is left out (the default \<open>dropna=True\<close>), and the groups
  are returned in the order of their keys (the default \<open>sort=True\<close>).
\<close>

definition groupby_sum :: "ledger \<Rightarrow> series" where
  "groupby_sum rs =
     sort_key fst
       (fold (\<lambda>r gs. case col_category r of None \<Rightarrow> gs
                                           | Some c \<Rightarrow> add_to_group c (col_amount r) gs) rs [])"

definition income_by_category :: "ledger \<Rightarrow> series" where
  "income_by_category df = groupby_sum (filter (\<lambda>r. col_type r = lbl_income) df)"

definition expense_by_category :: "ledger \<Rightarrow> series" where
  "expense_by_category df = groupby_sum (filter (\<lambda>r. col_type r = lbl_expense) df)"

text \<open>\<open>Index.unique()\<close>: the labels in the order of their first appearance.\<close>

definition index_unique :: "'a list \<Rightarrow> 'a list" where
  "index_unique xs = fold (\<lambda>x seen. if x \<in> set seen then seen else seen @ [x]) xs []"

text \<open>\<open>Series.get(label, default)\<close>.\<close>

definition series_get :: "series \<Rightarrow> ustr \<Rightarrow> rat \<Rightarrow> rat" where
  "series_get s label dflt = (case map_of s label of Some v \<Rightarrow> v | None \<Rightarrow> dflt)"

text \<open>Line 182: the index of the concatenation of the two series, made unique.\<close>

definition all_categories :: "series \<Rightarrow> series \<Rightarrow> ustr list" where
  "all_categories inc expn = index_unique (map fst (inc @ expn))"

text \<open>Lines 184 and 185, the two list comprehensions over \<open>all_categories\<close>.\<close>

definition income_values :: "series \<Rightarrow> ustr list \<Rightarrow> rat list" where
  "income_values inc cats = map (\<lambda>cat. series_get inc cat 0) cats"

definition expense_values :: "series \<Rightarrow> ustr list \<Rightarrow> rat list" where
  "expense_values expn cats = map (\<lambda>cat. series_get expn cat 0) cats"

text \<open>Lines 182-185 as one function of the two per-category series.\<close>

definition build_series :: "series \<Rightarrow> series \<Rightarrow> ustr list \<times> rat list \<times> rat list" where
  "build_series inc expn =
     (let cats = all_categories inc expn
      in (cats, income_values inc cats, expense_values expn cats))"

text \<open>
  What the chart section shows. The whole dashboard is under the test of line 135, so for
  an empty DataFrame nothing is shown; otherwise line 177 chooses between the plot of
  lines 178-215 and the message of line 217 (that there is not enough data for a chart).
\<close>

datatype chart_view =
    NoDashboard
  | InsufficientData
  | Plot "ustr list" "rat list" "rat list"

definition chart_section :: "ledger \<Rightarrow> chart_view" where
  "chart_section df =
     (if df = [] then NoDashboard
      else if lbl_income \<in> set (map col_type df) \<or> lbl_expense \<in> set (map col_type df)
      then (case build_series (income_by_category df) (expense_by_category df) of
              (cats, inc_vals, exp_vals) \<Rightarrow> Plot cats inc_vals exp_vals)
      else InsufficientData)"

section \<open>The category catalog (lines 48-51, 60-65 and 85-88)\<close>

text \<open>The form fields kept in \<open>st.session_state\<close>.\<close>

record session_state =
  trans_type :: ustr
  category :: ustr
  description :: ustr
  amount :: rat

text \<open>The defaults of lines 48-55.\<close>

definition initial_session :: session_state where
  "initial_session =
     \<lparr>trans_type = lbl_income, category = cat_daily_income, description = [], amount = 0\<rparr>"

definition update_category_options :: "session_state \<Rightarrow> session_state" where
  "update_category_options s =
     (if trans_type s = lbl_income then s\<lparr>category := cat_daily_income\<rparr>
      else s\<lparr>category := cat_food\<rparr>)"

text \<open>Lines 85-88: the options offered by the category selectbox.\<close>

definition category_options :: "session_state \<Rightarrow> ustr list" where
  "category_options s =
     (if trans_type s = lbl_income then [cat_daily_income, cat_other_income]
      else [cat_food, cat_travel, cat_other_expense])"

text \<open>
  A change of the type selectbox (lines 77-82): the widget stores the chosen value under its
  key \<open>trans_type\<close> and then runs its \<open>on_change\<close> callback.
\<close>

definition on_change_trans_type :: "ustr \<Rightarrow> session_state \<Rightarrow> session_state" where
  "on_change_trans_type new_type s = update_category_options (s\<lparr>trans_type := new_type\<rparr>)"

section \<open>Loading the ledger (lines 24-45)\<close>

datatype encoding = utf_8_sig | TIS_620

text \<open>The exceptions of the load block; \<open>OtherException\<close> stands for any other one.\<close>

datatype exn = EmptyDataError | UnicodeDecodeError | KeyError | OtherException

text \<open>
  A row as \<open>pd.read_csv\<close> returns it: the date cell is still what the file holds (a value
  of type \<open>'c\<close>), the other cells are as in the DataFrame.
\<close>

record 'c raw_row =
  raw_date :: 'c
  raw_type :: ustr
  raw_category :: "ustr option"
  raw_description :: "ustr option"
  raw_amount :: rat

text \<open>
  The frame parsed from a file: its rows, and whether the file has the date column at all
  (reading a column that is not there raises \<open>KeyError\<close>).
\<close>

record 'c csv_frame =
  has_date_column :: bool
  csv_rows :: "'c raw_row list"

text \<open>
  The file system and the CSV reader as the load block sees them: whether transactions.csv
  exists, its size in bytes, and what \<open>pd.read_csv\<close> does with it under an encoding
  (raise, or return a frame). The reader is library code and is a parameter here.
\<close>

record 'c backing_store =
  file_exists :: bool
  file_size :: nat
  read_csv :: "encoding \<Rightarrow> exn + 'c csv_frame"

text \<open>
  \<open>pd.to_datetime(column, errors='coerce')\<close>: each cell becomes its timestamp, or \<open>NaT\<close>
  when it does not parse. The parser is library code and is a parameter; it is given the
  whole column as well, since the expected format may be taken from the column.
\<close>

definition to_datetime_coerce :: "('c list \<Rightarrow> 'c \<Rightarrow> int option) \<Rightarrow> 'c list \<Rightarrow> datetime list" where
  "to_datetime_coerce parse column =
     map (\<lambda>c. case parse column c of Some t \<Rightarrow> Timestamp t | None \<Rightarrow> NaT) column"

text \<open>Lines 30 and 42: the date column is replaced by its conversion, row by row.\<close>

definition assign_dates :: "('c list \<Rightarrow> 'c \<Rightarrow> int option) \<Rightarrow> 'c csv_frame \<Rightarrow> exn + ledger" where
  "assign_dates parse f =
     (if has_date_column f
      then Inr (map2 (\<lambda>r d. \<lparr>col_date = d, col_type = raw_type r,
                               col_category = raw_category r,
                               col_description = raw_description r,
                               col_amount = raw_amount r\<rparr>)
                  (csv_rows f) (to_datetime_coerce parse (map raw_date (csv_rows f))))
      else Inl KeyError)"

text \<open>
  The load block. \<open>Inr df\<close> is the DataFrame stored in the session state; \<open>Inl e\<close> is an
  exception that no handler of the block catches.
\<close>

definition load_df :: "('c list \<Rightarrow> 'c \<Rightarrow> int option) \<Rightarrow> 'c backing_store \<Rightarrow> exn + ledger" where
  "load_df parse st =
     (if file_exists st \<and> file_size st > 0 then
        (case read_csv st utf_8_sig of
           Inr f \<Rightarrow> assign_dates parse f
         | Inl EmptyDataError \<Rightarrow> Inr []
         | Inl UnicodeDecodeError \<Rightarrow>
             (case read_csv st TIS_620 of
                Inr f \<Rightarrow> (case assign_dates parse f of Inr df \<Rightarrow> Inr df | Inl e \<Rightarrow> Inr [])
              | Inl e \<Rightarrow> Inr [])
         | Inl e \<Rightarrow> Inl e)
      else Inr [])"

section \<open>Example data\<close>

text \<open>Rows and ledgers at which the theorems below are instantiated.\<close>

definition row_salary :: transaction where
  "row_salary = \<lparr>col_date = Timestamp 19723, col_type = lbl_income,
                  col_category = Some cat_daily_income, col_description = Some [0x61],
                  col_amount = 3000\<rparr>"

definition row_bonus :: transaction where
  "row_bonus = \<lparr>col_date = Timestamp 19724, col_type = lbl_income,
                 col_category = Some cat_other_income, col_description = Some [0x62],
                 col_amount = 201 / 2\<rparr>"

definition row_lunch :: transaction where
  "row_lunch = \<lparr>col_date = Timestamp 19724, col_type = lbl_expense,
                 col_category = Some cat_food, col_description = Some [0x63],
                 col_amount = 45\<rparr>"

text \<open>A row whose type is neither label (the text "?").\<close>

definition row_unknown :: transaction where
  "row_unknown = \<lparr>col_date = Timestamp 19725, col_type = [0x3F],
                   col_category = Some cat_food, col_description = Some [0x64],
                   col_amount = 7\<rparr>"

text \<open>An income row read from a line whose category field is empty.\<close>

definition row_uncategorised :: transaction where
  "row_uncategorised = \<lparr>col_date = Timestamp 19723, col_type = lbl_income,
                         col_category = None, col_description = Some [0x78],
                         col_amount = 100\<rparr>"

definition overspent :: ledger where
  "overspent = [row_lunch]"

definition mixed_ledger :: ledger where
  "mixed_ledger = [row_salary, row_unknown, row_lunch]"

definition income_ledger :: ledger where
  "income_ledger = [row_bonus, row_uncategorised, row_salary, row_bonus]"

definition uncategorised_ledger :: ledger where
  "uncategorised_ledger = [row_uncategorised]"

text \<open>The two series of the spec's example: income {A: 100}, expense {B: 50}.\<close>

definition series_a :: series where
  "series_a = [(cat_daily_income, 100)]"

definition series_b :: series where
  "series_b = [(cat_food, 50)]"

text \<open>
  Date cells as text, and a parser that accepts the text "2024-01-01" (as day 19723) and
  nothing else.
\<close>

definition text_2024_01_01 :: ustr where
  "text_2024_01_01 = [0x32, 0x30, 0x32, 0x34, 0x2D, 0x30, 0x31, 0x2D, 0x30, 0x31]"

definition text_garbage :: ustr where
  "text_garbage = [0x3F, 0x3F]"

definition parse_iso :: "ustr list \<Rightarrow> ustr \<Rightarrow> int option" where
  "parse_iso column c = (if c = text_2024_01_01 then Some 19723 else None)"

definition raw_salary :: "ustr raw_row" where
  "raw_salary = \<lparr>raw_date = text_2024_01_01, raw_type = lbl_income,
                  raw_category = Some cat_daily_income, raw_description = Some [0x61],
                  raw_amount = 3000\<rparr>"

definition raw_bad_date :: "ustr raw_row" where
  "raw_bad_date = \<lparr>raw_date = text_garbage, raw_type = lbl_expense,
                    raw_category = Some cat_food, raw_description = Some [0x63],
                    raw_amount = 45\<rparr>"

definition frame_three :: "ustr csv_frame" where
  "frame_three = \<lparr>has_date_column = True, csv_rows = [raw_salary, raw_bad_date, raw_salary]\<rparr>"

text \<open>No file; a file of zero bytes; a file that reads under the default encoding; a file
  that decodes only under the legacy encoding; a file that decodes under neither.\<close>

definition absent_store :: "ustr backing_store" where
  "absent_store = \<lparr>file_exists = False, file_size = 0, read_csv = (\<lambda>enc. Inl OtherException)\<rparr>"

definition zero_byte_store :: "ustr backing_store" where
  "zero_byte_store = \<lparr>file_exists = True, file_size = 0, read_csv = (\<lambda>enc. Inl EmptyDataError)\<rparr>"

definition plain_store :: "ustr backing_store" where
  "plain_store = \<lparr>file_exists = True, file_size = 120, read_csv = (\<lambda>enc. Inr frame_three)\<rparr>"

definition legacy_store :: "ustr backing_store" where
  "legacy_store = \<lparr>file_exists = True, file_size = 120,
                    read_csv = (\<lambda>enc. case enc of utf_8_sig \<Rightarrow> Inl UnicodeDecodeError
                                               | TIS_620 \<Rightarrow> Inr frame_three)\<rparr>"

definition undecodable_store :: "ustr backing_store" where
  "undecodable_store = \<lparr>file_exists = True, file_size = 120,
                         read_csv = (\<lambda>enc. Inl UnicodeDecodeError)\<rparr>"

section \<open>Properties of the aggregation\<close>

lemma fold_add_amount:
  "fold (\<lambda>r acc. acc + col_amount r) rs a = a + sum_list (map col_amount rs)"
  by (induction rs arbitrary: a) (simp_all add: add.assoc)

lemma column_sum_sum_list: "column_sum rs = sum_list (map col_amount rs)"
  by (simp add: column_sum_def fold_add_amount)

lemma total_of_sum_list: "total_of rs = sum_list (map col_amount rs)"
  by (simp add: total_of_def column_sum_sum_list)

lemma total_of_indexed: "total_of rs = (\<Sum>i<length rs. col_amount (rs ! i))"
proof -
  have "sum_list (map col_amount rs) = (\<Sum>i<length rs. col_amount (rs ! i))"
    by (simp add: sum_list_sum_nth atLeast0LessThan)
  then show ?thesis by (simp add: total_of_sum_list)
qed

lemma labels_differ: "lbl_income \<noteq> lbl_expense"
  by (simp add: lbl_income_def lbl_expense_def)

lemma balance_overspent: "balance overspent = - 45"
  by (simp add: balance_def total_income_def total_expense_def total_of_sum_list income_df_def
      expense_df_def overspent_def row_lunch_def lbl_income_def lbl_expense_def)

text \<open>
  Claim C3. The total of a list of records is the sum of their amounts, the total of no
  records is 0, and the balance is the income total minus the expense total, a signed
  value that is negative when the expenses are larger.
\<close>

theorem total_and_balance:
  "total_of rs = (\<Sum>i<length rs. col_amount (rs ! i))
   \<and> total_of [] = 0
   \<and> total_income df = (\<Sum>i<length (income_df df). col_amount (income_df df ! i))
   \<and> total_expense df = (\<Sum>i<length (expense_df df). col_amount (expense_df df ! i))
   \<and> balance df = total_income df - total_expense df
   \<and> balance overspent < 0"
proof -
  have "total_of [] = 0" by (simp add: total_of_def)
  moreover have "balance overspent < 0" by (simp add: balance_overspent)
  ultimately show ?thesis
    by (simp add: total_of_indexed total_income_def total_expense_def balance_def)
qed

lemma count_list_filter:
  "count_list (filter P xs) x = (if P x then count_list xs x else 0)"
  by (induction xs) auto

lemma total_income_skips:
  "col_type r \<noteq> lbl_income \<Longrightarrow> total_income (xs @ r # ys) = total_income (xs @ ys)"
  by (simp add: total_income_def income_df_def)

lemma total_expense_skips:
  "col_type r \<noteq> lbl_expense \<Longrightarrow> total_expense (xs @ r # ys) = total_expense (xs @ ys)"
  by (simp add: total_expense_def expense_df_def)

text \<open>
  Claim C4. The two tables select the records of each type from the ledger: each is a
  subsequence of the ledger (the relative order is kept), holds every Income (Expense)
  record as often as the ledger does and no other record, and the two share no record. A
  record whose type is neither label is in neither table, and the totals and the balance
  are the same with and without it.
\<close>

theorem split_by_type_partition:
  "subseq (income_df df) df \<and> subseq (expense_df df) df
   \<and> set (income_df df) \<inter> set (expense_df df) = {}
   \<and> count_list (income_df df) r = (if col_type r = lbl_income then count_list df r else 0)
   \<and> count_list (expense_df df) r = (if col_type r = lbl_expense then count_list df r else 0)
   \<and> (col_type r \<noteq> lbl_income \<and> col_type r \<noteq> lbl_expense \<longrightarrow>
         r \<notin> set (income_df df) \<and> r \<notin> set (expense_df df)
         \<and> total_income (xs @ r # ys) = total_income (xs @ ys)
         \<and> total_expense (xs @ r # ys) = total_expense (xs @ ys)
         \<and> balance (xs @ r # ys) = balance (xs @ ys))"
proof -
  have order: "subseq (income_df df) df \<and> subseq (expense_df df) df"
    by (simp add: income_df_def expense_df_def)
  have disjoint: "set (income_df df) \<inter> set (expense_df df) = {}"
    using labels_differ by (auto simp: income_df_def expense_df_def)
  have counts: "count_list (income_df df) r = (if col_type r = lbl_income then count_list df r else 0)
      \<and> count_list (expense_df df) r = (if col_type r = lbl_expense then count_list df r else 0)"
    by (simp add: income_df_def expense_df_def count_list_filter)
  have other: "r \<notin> set (income_df df) \<and> r \<notin> set (expense_df df)
         \<and> total_income (xs @ r # ys) = total_income (xs @ ys)
         \<and> total_expense (xs @ r # ys) = total_expense (xs @ ys)
         \<and> balance (xs @ r # ys) = balance (xs @ ys)"
    if "col_type r \<noteq> lbl_income" "col_type r \<noteq> lbl_expense"
    using that by (simp add: income_df_def expense_df_def balance_def total_income_skips
        total_expense_skips)
  show ?thesis using order disjoint counts other by blast
qed

theorem split_by_type_partition_witness:
  "col_type row_unknown \<noteq> lbl_income \<and> col_type row_unknown \<noteq> lbl_expense
   \<and> income_df mixed_ledger = [row_salary] \<and> expense_df mixed_ledger = [row_lunch]
   \<and> row_unknown \<notin> set (income_df mixed_ledger) \<and> row_unknown \<notin> set (expense_df mixed_ledger)
   \<and> total_income mixed_ledger = total_income [row_salary, row_lunch]
   \<and> total_expense mixed_ledger = total_expense [row_salary, row_lunch]
   \<and> total_income mixed_ledger = 3000 \<and> total_expense mixed_ledger = 45"
proof -
  have types: "col_type row_unknown \<noteq> lbl_income \<and> col_type row_unknown \<noteq> lbl_expense"
    by (simp add: row_unknown_def lbl_income_def lbl_expense_def)
  have tables: "income_df mixed_ledger = [row_salary] \<and> expense_df mixed_ledger = [row_lunch]"
    by (simp add: income_df_def expense_df_def mixed_ledger_def row_salary_def row_unknown_def
        row_lunch_def lbl_income_def lbl_expense_def)
  have sums: "total_income mixed_ledger = 3000 \<and> total_expense mixed_ledger = 45"
    using tables
    by (simp add: total_income_def total_expense_def total_of_sum_list row_salary_def
        row_lunch_def)
  show ?thesis
    using types tables sums
      split_by_type_partition [of mixed_ledger row_unknown "[row_salary]" "[row_lunch]"]
    by (simp add: mixed_ledger_def)
qed

section \<open>Properties of the per-category sums\<close>

lemma map_of_add_to_group:
  "map_of (add_to_group c a gs) =
     (map_of gs)(c \<mapsto> (case map_of gs c of None \<Rightarrow> a | Some v \<Rightarrow> v + a))"
  by (induction c a gs rule: add_to_group.induct) (auto simp: fun_eq_iff)

lemma keys_add_to_group:
  "map fst (add_to_group c a gs) =
     (if c \<in> set (map fst gs) then map fst gs else map fst gs @ [c])"
  by (induction c a gs rule: add_to_group.induct) auto

lemma distinct_add_to_group:
  "distinct (map fst gs) \<Longrightarrow> distinct (map fst (add_to_group c a gs))"
  by (simp add: keys_add_to_group)

lemma distinct_groups_fold:
  "distinct (map fst gs) \<Longrightarrow>
   distinct (map fst (fold (\<lambda>r gs. case col_category r of None \<Rightarrow> gs
                                       | Some c \<Rightarrow> add_to_group c (col_amount r) gs) rs gs))"
  by (induction rs arbitrary: gs) (auto simp: distinct_add_to_group split: option.splits)

lemma map_of_groups_fold:
  "map_of (fold (\<lambda>r gs. case col_category r of None \<Rightarrow> gs
                          | Some c \<Rightarrow> add_to_group c (col_amount r) gs) rs gs) c =
     (if \<exists>r\<in>set rs. col_category r = Some c
      then Some ((case map_of gs c of None \<Rightarrow> 0 | Some v \<Rightarrow> v)
                 + sum_list (map col_amount (filter (\<lambda>r. col_category r = Some c) rs)))
      else map_of gs c)"
proof (induction rs arbitrary: gs)
  case Nil
  then show ?case by simp
next
  case (Cons r rs)
  show ?case
  proof (cases "col_category r")
    case None
    then show ?thesis using Cons.IH [of gs] by simp
  next
    case (Some k)
    then show ?thesis
      using Cons.IH [of "add_to_group k (col_amount r) gs"]
      by (auto simp: map_of_add_to_group add.assoc split: option.splits)
  qed
qed

lemma distinct_keys_sort_key:
  "distinct (map fst (sort_key fst gs)) = distinct (map fst gs)"
  by (simp add: distinct_map)

lemma map_of_sort_key:
  assumes "distinct (map fst gs)"
  shows "map_of (sort_key fst gs) = map_of gs"
proof -
  have "distinct (map fst (sort_key fst gs))"
    using assms by (simp add: distinct_keys_sort_key)
  then show ?thesis
    using assms map_of_inject_set [of "sort_key fst gs" gs] by simp
qed

lemma groupby_sum_distinct: "distinct (map fst (groupby_sum rs))"
  by (simp add: groupby_sum_def distinct_keys_sort_key distinct_groups_fold)

lemma groupby_sum_sorted: "sorted (map fst (groupby_sum rs))"
  by (simp add: groupby_sum_def)

lemma groupby_sum_lookup:
  "map_of (groupby_sum rs) c =
     (if \<exists>r\<in>set rs. col_category r = Some c
      then Some (sum_list (map col_amount (filter (\<lambda>r. col_category r = Some c) rs)))
      else None)"
  by (simp add: groupby_sum_def map_of_sort_key distinct_groups_fold map_of_groups_fold)

lemma groupby_sum_drops_missing:
  "groupby_sum (filter (\<lambda>r. col_category r \<noteq> None) rs) = groupby_sum rs"
proof -
  have "fold (\<lambda>r gs. case col_category r of None \<Rightarrow> gs
                        | Some c \<Rightarrow> add_to_group c (col_amount r) gs)
          (filter (\<lambda>r. col_category r \<noteq> None) rs) gs
      = fold (\<lambda>r gs. case col_category r of None \<Rightarrow> gs
                        | Some c \<Rightarrow> add_to_group c (col_amount r) gs) rs gs" for gs
    by (induction rs arbitrary: gs) auto
  then show ?thesis by (simp add: groupby_sum_def)
qed

text \<open>
  Claim C2, as amended. In the series that the group-by returns for a list of records, a
  category label is a key exactly when some record of the list carries that label, no key
  occurs twice, and the value at a key is the sum of the amounts of exactly the records
  with that label; so a label without a record is absent, not present with the value 0.
  A record whose category is missing belongs to no key: the series is the one of the list
  without such records.
\<close>

theorem sum_by_category_groups:
  "(c \<in> fst ` set (groupby_sum rs) \<longleftrightarrow> (\<exists>r\<in>set rs. col_category r = Some c))
   \<and> distinct (map fst (groupby_sum rs))
   \<and> (\<forall>v. (c, v) \<in> set (groupby_sum rs) \<longrightarrow>
          v = sum_list (map col_amount (filter (\<lambda>r. col_category r = Some c) rs)))
   \<and> groupby_sum rs = groupby_sum (filter (\<lambda>r. col_category r \<noteq> None) rs)"
proof -
  have keys: "c \<in> fst ` set (groupby_sum rs) \<longleftrightarrow> (\<exists>r\<in>set rs. col_category r = Some c)"
  proof -
    have "c \<in> fst ` set (groupby_sum rs) \<longleftrightarrow> map_of (groupby_sum rs) c \<noteq> None"
      by (simp add: map_of_eq_None_iff)
    then show ?thesis by (simp add: groupby_sum_lookup)
  qed
  have vals: "v = sum_list (map col_amount (filter (\<lambda>r. col_category r = Some c) rs))"
    if "(c, v) \<in> set (groupby_sum rs)" for v
  proof -
    from that have "map_of (groupby_sum rs) c = Some v"
      by (simp add: groupby_sum_distinct)
    then show ?thesis
      using groupby_sum_lookup [of rs c] by (simp split: if_splits)
  qed
  have dropped: "groupby_sum rs = groupby_sum (filter (\<lambda>r. col_category r \<noteq> None) rs)"
    by (simp only: groupby_sum_drops_missing)
  show ?thesis using keys vals dropped groupby_sum_distinct by blast
qed

lemma groupby_sum_income_ledger:
  "groupby_sum income_ledger = [(cat_other_income, 201), (cat_daily_income, 3000)]"
  by (simp add: groupby_sum_def income_ledger_def row_bonus_def row_uncategorised_def
      row_salary_def cat_other_income_def cat_daily_income_def)

theorem sum_by_category_groups_witness:
  "(cat_other_income, 201) \<in> set (groupby_sum income_ledger)
   \<and> (\<exists>r\<in>set income_ledger. col_category r = Some cat_other_income)
   \<and> 201 = sum_list (map col_amount
              (filter (\<lambda>r. col_category r = Some cat_other_income) income_ledger))
   \<and> cat_food \<notin> fst ` set (groupby_sum income_ledger)
   \<and> \<not> (\<exists>r\<in>set income_ledger. col_category r = Some cat_food)
   \<and> row_uncategorised \<in> set income_ledger
   \<and> groupby_sum income_ledger
       = groupby_sum (filter (\<lambda>r. col_category r \<noteq> None) income_ledger)"
proof -
  have present: "(cat_other_income, 201) \<in> set (groupby_sum income_ledger)"
    by (simp add: groupby_sum_income_ledger)
  have absent: "cat_food \<notin> fst ` set (groupby_sum income_ledger)"
    by (simp add: groupby_sum_income_ledger cat_food_def cat_other_income_def
        cat_daily_income_def)
  have member: "row_uncategorised \<in> set income_ledger"
    by (simp add: income_ledger_def)
  have key: "cat_other_income \<in> fst ` set (groupby_sum income_ledger)"
    using present by force
  note other = sum_by_category_groups [of cat_other_income income_ledger]
  note food = sum_by_category_groups [of cat_food income_ledger]
  have "\<exists>r\<in>set income_ledger. col_category r = Some cat_other_income"
    using key other [THEN conjunct1] by simp
  moreover have "201 = sum_list (map col_amount
      (filter (\<lambda>r. col_category r = Some cat_other_income) income_ledger))"
    using present other [THEN conjunct2, THEN conjunct2, THEN conjunct1] by simp
  moreover have "\<not> (\<exists>r\<in>set income_ledger. col_category r = Some cat_food)"
    using absent food [THEN conjunct1] by simp
  moreover have "groupby_sum income_ledger
       = groupby_sum (filter (\<lambda>r. col_category r \<noteq> None) income_ledger)"
    by (rule food [THEN conjunct2, THEN conjunct2, THEN conjunct2])
  ultimately show ?thesis using present absent member by blast
qed

lemma groupby_sum_uncategorised: "groupby_sum [row_uncategorised] = []"
  by (simp add: groupby_sum_def row_uncategorised_def)

text \<open>
  Claim C2 as stated fails where the category of a record is the missing value. The
  ledger below holds one record, of amount 100, whose category is missing; the series has
  no key at all, so this record's category is a category of the list without a key, and
  its amount is part of no value of the series although it is part of the total.
\<close>

theorem sum_by_category_missing_counterexample:
  "row_uncategorised \<in> set uncategorised_ledger
   \<and> col_category row_uncategorised = None
   \<and> col_amount row_uncategorised = 100
   \<and> groupby_sum uncategorised_ledger = []
   \<and> sum_list (map snd (groupby_sum uncategorised_ledger)) = 0
   \<and> total_of uncategorised_ledger = 100"
proof -
  have series: "groupby_sum uncategorised_ledger = []"
    using groupby_sum_uncategorised by (simp add: uncategorised_ledger_def)
  have "total_of uncategorised_ledger = 100"
    by (simp add: total_of_sum_list uncategorised_ledger_def row_uncategorised_def)
  then show ?thesis
    using series by (simp add: uncategorised_ledger_def row_uncategorised_def)
qed

section \<open>Properties of the chart series\<close>

lemma unique_fold_set:
  "set (fold (\<lambda>x seen. if x \<in> set seen then seen else seen @ [x]) xs acc) = set acc \<union> set xs"
  by (induction xs arbitrary: acc) auto

lemma unique_fold_distinct:
  "distinct acc \<Longrightarrow>
   distinct (fold (\<lambda>x seen. if x \<in> set seen then seen else seen @ [x]) xs acc)"
  by (induction xs arbitrary: acc) auto

lemma remdups_snoc: "remdups (zs @ [x]) = filter (\<lambda>y. y \<noteq> x) (remdups zs) @ [x]"
  by (induction zs) auto

text \<open>
  The labels kept are the first occurrences, in the order of the input: reversing, keeping
  the last occurrences (\<open>remdups\<close>) and reversing again gives the same list.
\<close>

lemma unique_fold_first:
  "fold (\<lambda>x seen. if x \<in> set seen then seen else seen @ [x]) xs acc
     = acc @ rev (remdups (rev (filter (\<lambda>x. x \<notin> set acc) xs)))"
proof (induction xs arbitrary: acc)
  case Nil
  then show ?case by simp
next
  case (Cons x xs)
  show ?case
  proof (cases "x \<in> set acc")
    case True
    then show ?thesis using Cons.IH [of acc] by simp
  next
    case False
    have "filter (\<lambda>y. y \<notin> set (acc @ [x])) xs
            = filter (\<lambda>y. y \<noteq> x) (filter (\<lambda>y. y \<notin> set acc) xs)"
      by (induction xs) auto
    then have "rev (remdups (rev (filter (\<lambda>y. y \<notin> set (acc @ [x])) xs)))
            = rev (filter (\<lambda>y. y \<noteq> x) (remdups (rev (filter (\<lambda>y. y \<notin> set acc) xs))))"
      by (simp add: remdups_filter rev_filter)
    then show ?thesis
      using False Cons.IH [of "acc @ [x]"] by (simp add: remdups_snoc)
  qed
qed

lemma index_unique_set: "set (index_unique xs) = set xs"
  by (simp add: index_unique_def unique_fold_set)

lemma index_unique_distinct: "distinct (index_unique xs)"
  by (simp add: index_unique_def unique_fold_distinct)

lemma index_unique_first: "index_unique xs = rev (remdups (rev xs))"
  by (simp add: index_unique_def unique_fold_first)

lemma build_series_empty: "build_series [] [] = ([], [], [])"
  by (simp add: build_series_def all_categories_def index_unique_def income_values_def
      expense_values_def)

text \<open>
  Claim C1. The category axis of the chart holds exactly the keys of the two series, each
  once, in the order of first appearance (the income keys, then the expense keys not seen
  before); at every position of the axis the income value is the income series' value for
  that category, or 0 when the category is not a key of it, and likewise the expense value.
\<close>

theorem build_series_axis:
  assumes "build_series inc expn = (cats, inc_vals, exp_vals)"
  shows "set cats = fst ` set inc \<union> fst ` set expn
     \<and> distinct cats
     \<and> cats = rev (remdups (rev (map fst inc @ map fst expn)))
     \<and> (\<forall>i<length cats.
           inc_vals ! i = (case map_of inc (cats ! i) of Some v \<Rightarrow> v | None \<Rightarrow> 0)
           \<and> exp_vals ! i = (case map_of expn (cats ! i) of Some v \<Rightarrow> v | None \<Rightarrow> 0))"
proof -
  from assms have cats: "cats = index_unique (map fst (inc @ expn))"
    and iv: "inc_vals = map (\<lambda>cat. series_get inc cat 0) cats"
    and ev: "exp_vals = map (\<lambda>cat. series_get expn cat 0) cats"
    by (auto simp: build_series_def Let_def all_categories_def income_values_def
        expense_values_def)
  have "set cats = fst ` set inc \<union> fst ` set expn"
    by (simp add: cats index_unique_set image_Un)
  moreover have "distinct cats"
    by (simp add: cats index_unique_distinct)
  moreover have "cats = rev (remdups (rev (map fst inc @ map fst expn)))"
    by (simp add: cats index_unique_first)
  moreover have "\<forall>i<length cats.
           inc_vals ! i = (case map_of inc (cats ! i) of Some v \<Rightarrow> v | None \<Rightarrow> 0)
           \<and> exp_vals ! i = (case map_of expn (cats ! i) of Some v \<Rightarrow> v | None \<Rightarrow> 0)"
    by (simp add: iv ev series_get_def)
  ultimately show ?thesis by blast
qed

lemma build_series_a_b:
  "build_series series_a series_b = ([cat_daily_income, cat_food], [100, 0], [0, 50])"
  by (simp add: build_series_def all_categories_def index_unique_def income_values_def
      expense_values_def series_get_def series_a_def series_b_def cat_daily_income_def
      cat_food_def)

theorem build_series_axis_witness:
  "build_series series_a series_b = ([cat_daily_income, cat_food], [100, 0], [0, 50])
   \<and> set [cat_daily_income, cat_food] = fst ` set series_a \<union> fst ` set series_b
   \<and> distinct [cat_daily_income, cat_food]
   \<and> [100, 0] ! 0 = (case map_of series_a ([cat_daily_income, cat_food] ! 0) of
                        Some v \<Rightarrow> v | None \<Rightarrow> (0::rat))
   \<and> [100, 0] ! 1 = (case map_of series_a ([cat_daily_income, cat_food] ! 1) of
                        Some v \<Rightarrow> v | None \<Rightarrow> (0::rat))
   \<and> [0, 50] ! 0 = (case map_of series_b ([cat_daily_income, cat_food] ! 0) of
                       Some v \<Rightarrow> v | None \<Rightarrow> (0::rat))
   \<and> [0, 50] ! 1 = (case map_of series_b ([cat_daily_income, cat_food] ! 1) of
                       Some v \<Rightarrow> v | None \<Rightarrow> (0::rat))"
proof -
  note axis = build_series_axis [OF build_series_a_b]
  have "(0::nat) < length [cat_daily_income, cat_food]"
    and "(1::nat) < length [cat_daily_income, cat_food]"
    by simp_all
  then show ?thesis using build_series_a_b axis by blast
qed

text \<open>
  Claim C10. The three lists of the chart series have the same length: every category of
  the axis has one income value and one expense value.
\<close>

theorem build_series_lengths:
  "(case build_series inc expn of
      (cats, inc_vals, exp_vals) \<Rightarrow>
        length inc_vals = length cats \<and> length exp_vals = length cats)"
  by (simp add: build_series_def Let_def income_values_def expense_values_def)

lemma chart_section_no_typed_row:
  "df \<noteq> [] \<Longrightarrow> lbl_income \<notin> set (map col_type df) \<Longrightarrow> lbl_expense \<notin> set (map col_type df)
   \<Longrightarrow> chart_section df = InsufficientData"
  by (simp add: chart_section_def)

text \<open>
  Claim C9. Two empty series give three empty lists. The test of line 177, however, looks
  at the types of the rows and not at the two series: a ledger whose only row is an Income
  row without a category has two empty series, and the chart section goes on to plot them
  (an axis with no category) instead of reporting that the data is insufficient.
\<close>

theorem chart_section_uncategorised:
  "build_series [] [] = ([], [], [])
   \<and> income_by_category uncategorised_ledger = []
   \<and> expense_by_category uncategorised_ledger = []
   \<and> chart_section uncategorised_ledger = Plot [] [] []
   \<and> chart_section uncategorised_ledger \<noteq> InsufficientData"
proof -
  have inc: "income_by_category uncategorised_ledger = []"
    using groupby_sum_uncategorised
    by (simp add: income_by_category_def uncategorised_ledger_def row_uncategorised_def)
  have expn: "expense_by_category uncategorised_ledger = []"
    by (simp add: expense_by_category_def uncategorised_ledger_def row_uncategorised_def
        lbl_income_def lbl_expense_def groupby_sum_def)
  have "chart_section uncategorised_ledger = Plot [] [] []"
    using inc expn
    by (simp add: chart_section_def build_series_empty uncategorised_ledger_def
        row_uncategorised_def)
  then show ?thesis using inc expn build_series_empty by simp
qed

section \<open>Properties of the category catalog\<close>

lemma category_options_income:
  "category_options (s\<lparr>trans_type := lbl_income\<rparr>) = [cat_daily_income, cat_other_income]"
  by (simp add: category_options_def)

lemma category_options_expense:
  "category_options (s\<lparr>trans_type := lbl_expense\<rparr>) = [cat_food, cat_travel, cat_other_expense]"
  using labels_differ by (simp add: category_options_def)

lemma category_options_distinct: "distinct (category_options s)"
  by (simp add: category_options_def cat_daily_income_def cat_other_income_def cat_food_def
      cat_travel_def cat_other_expense_def)

lemma update_category_options_first:
  "take 1 (category_options (update_category_options s)) = [category (update_category_options s)]"
  by (simp add: update_category_options_def category_options_def)

lemma update_category_options_type:
  "trans_type (update_category_options s) = trans_type s"
  by (simp add: update_category_options_def)

text \<open>
  Claim C8. The catalog offers two distinct options under the type Income and three under
  the type Expense. The callback that runs when the type changes leaves the new type in
  place and sets the selected category to the first option of the list offered for that
  type, which is therefore one of its options; the initial selection is of that kind too.
\<close>

theorem category_catalog:
  "length (category_options (s\<lparr>trans_type := lbl_income\<rparr>)) = 2
   \<and> length (category_options (s\<lparr>trans_type := lbl_expense\<rparr>)) = 3
   \<and> distinct (category_options s)
   \<and> trans_type (on_change_trans_type new_type s) = new_type
   \<and> take 1 (category_options (on_change_trans_type new_type s))
       = [category (on_change_trans_type new_type s)]
   \<and> category (on_change_trans_type new_type s)
       \<in> set (category_options (on_change_trans_type new_type s))
   \<and> category (on_change_trans_type lbl_income s) = cat_daily_income
   \<and> category (on_change_trans_type lbl_expense s) = cat_food
   \<and> take 1 (category_options initial_session) = [category initial_session]"
proof -
  have first: "take 1 (category_options (on_change_trans_type new_type s))
       = [category (on_change_trans_type new_type s)]"
    using update_category_options_first [of "s\<lparr>trans_type := new_type\<rparr>"]
    by (simp add: on_change_trans_type_def)
  then have "category (on_change_trans_type new_type s)
       \<in> set (take 1 (category_options (on_change_trans_type new_type s)))"
    by simp
  then have member: "category (on_change_trans_type new_type s)
       \<in> set (category_options (on_change_trans_type new_type s))"
    by (rule in_set_takeD)
  have kept: "trans_type (on_change_trans_type new_type s) = new_type"
    by (simp add: on_change_trans_type_def update_category_options_type)
  have inc: "category (on_change_trans_type lbl_income s) = cat_daily_income"
    by (simp add: on_change_trans_type_def update_category_options_def)
  have expn: "category (on_change_trans_type lbl_expense s) = cat_food"
    using labels_differ by (simp add: on_change_trans_type_def update_category_options_def)
  have init: "take 1 (category_options initial_session) = [category initial_session]"
    by (simp add: initial_session_def category_options_def)
  show ?thesis
    using first member kept inc expn init category_options_distinct [of s]
    by (simp add: category_options_income category_options_expense)
qed

section \<open>Properties of loading\<close>

lemma assign_dates_rows:
  assumes "has_date_column f"
  shows "\<exists>df. assign_dates parse f = Inr df \<and> length df = length (csv_rows f)
     \<and> (\<forall>i<length (csv_rows f).
           col_date (df ! i) =
             (case parse (map raw_date (csv_rows f)) (raw_date (csv_rows f ! i)) of
                Some t \<Rightarrow> Timestamp t | None \<Rightarrow> NaT)
           \<and> col_type (df ! i) = raw_type (csv_rows f ! i)
           \<and> col_category (df ! i) = raw_category (csv_rows f ! i)
           \<and> col_description (df ! i) = raw_description (csv_rows f ! i)
           \<and> col_amount (df ! i) = raw_amount (csv_rows f ! i))"
  using assms by (simp add: assign_dates_def to_datetime_coerce_def)

lemma load_df_no_file: "\<not> file_exists st \<or> file_size st = 0 \<Longrightarrow> load_df parse st = Inr []"
  by (auto simp: load_df_def)

lemma load_df_fallback:
  assumes "file_exists st" "0 < file_size st" "read_csv st utf_8_sig = Inl UnicodeDecodeError"
  shows "load_df parse st =
     (case read_csv st TIS_620 of
        Inr f \<Rightarrow> (if has_date_column f then assign_dates parse f else Inr [])
      | Inl e \<Rightarrow> Inr [])"
  using assms by (auto simp: load_df_def assign_dates_def split: sum.splits)

text \<open>
  Claim C6. When the file is absent or has zero bytes, loading gives the empty ledger and
  raises nothing. When the file fails to decode under the default encoding, it is read
  once more under the legacy encoding: loading then gives the ledger of that second
  reading, and the empty ledger when the second reading raises anything; in no case does
  an exception leave the load.
\<close>

theorem load_degrades_to_empty:
  "(\<not> file_exists st \<or> file_size st = 0 \<longrightarrow> load_df parse st = Inr [])
   \<and> (file_exists st \<and> 0 < file_size st \<and> read_csv st utf_8_sig = Inl UnicodeDecodeError \<longrightarrow>
        (\<forall>e. read_csv st TIS_620 = Inl e \<longrightarrow> load_df parse st = Inr [])
        \<and> (\<forall>f. read_csv st TIS_620 = Inr f \<longrightarrow>
              load_df parse st = (if has_date_column f then assign_dates parse f else Inr []))
        \<and> (\<exists>df. load_df parse st = Inr df))"
proof -
  have fallback: "(\<forall>e. read_csv st TIS_620 = Inl e \<longrightarrow> load_df parse st = Inr [])
        \<and> (\<forall>f. read_csv st TIS_620 = Inr f \<longrightarrow>
              load_df parse st = (if has_date_column f then assign_dates parse f else Inr []))
        \<and> (\<exists>df. load_df parse st = Inr df)"
    if "file_exists st" "0 < file_size st" "read_csv st utf_8_sig = Inl UnicodeDecodeError"
    using load_df_fallback [OF that, of parse]
    by (auto simp: assign_dates_def split: sum.splits)
  show ?thesis using fallback load_df_no_file [of st parse] by blast
qed

lemma assign_dates_frame_three:
  "assign_dates parse_iso frame_three =
     Inr [row_salary, row_lunch\<lparr>col_date := NaT\<rparr>, row_salary]"
  by (simp add: assign_dates_def to_datetime_coerce_def frame_three_def raw_salary_def
      raw_bad_date_def parse_iso_def text_2024_01_01_def text_garbage_def row_salary_def
      row_lunch_def)

theorem load_degrades_to_empty_witness:
  "\<not> file_exists absent_store \<and> load_df parse_iso absent_store = Inr []
   \<and> file_size zero_byte_store = 0 \<and> load_df parse_iso zero_byte_store = Inr []
   \<and> file_exists legacy_store \<and> 0 < file_size legacy_store
   \<and> read_csv legacy_store utf_8_sig = Inl UnicodeDecodeError
   \<and> load_df parse_iso legacy_store = Inr [row_salary, row_lunch\<lparr>col_date := NaT\<rparr>, row_salary]
   \<and> file_exists undecodable_store \<and> 0 < file_size undecodable_store
   \<and> read_csv undecodable_store utf_8_sig = Inl UnicodeDecodeError
   \<and> load_df parse_iso undecodable_store = Inr []"
proof -
  have a: "\<not> file_exists absent_store" by (simp add: absent_store_def)
  have z: "file_size zero_byte_store = 0" by (simp add: zero_byte_store_def)
  have l: "file_exists legacy_store \<and> 0 < file_size legacy_store
      \<and> read_csv legacy_store utf_8_sig = Inl UnicodeDecodeError
      \<and> read_csv legacy_store TIS_620 = Inr frame_three \<and> has_date_column frame_three"
    by (simp add: legacy_store_def frame_three_def)
  have u: "file_exists undecodable_store \<and> 0 < file_size undecodable_store
      \<and> read_csv undecodable_store utf_8_sig = Inl UnicodeDecodeError
      \<and> read_csv undecodable_store TIS_620 = Inl UnicodeDecodeError"
    by (simp add: undecodable_store_def)
  show ?thesis
    using a z l u assign_dates_frame_three
      load_degrades_to_empty [of absent_store parse_iso]
      load_degrades_to_empty [of zero_byte_store parse_iso]
      load_degrades_to_empty [of legacy_store parse_iso]
      load_degrades_to_empty [of undecodable_store parse_iso]
    by simp
qed

text \<open>
  Claim C7. A file that is read, under the default encoding or under the legacy one after
  a decode failure, loads as a ledger with one record for every row of the file, in the
  same order and with the same type, category, description and amount; the date of a row
  is its timestamp when the stored date parses and the sentinel \<open>NaT\<close> when it does not.
  No row is dropped and an unparseable date raises nothing.
\<close>

theorem load_keeps_unparseable_dates:
  assumes "file_exists st" and "0 < file_size st"
    and "read_csv st utf_8_sig = Inr f
         \<or> (read_csv st utf_8_sig = Inl UnicodeDecodeError \<and> read_csv st TIS_620 = Inr f)"
    and "has_date_column f"
  shows "\<exists>df. load_df parse st = Inr df \<and> length df = length (csv_rows f)
     \<and> (\<forall>i<length (csv_rows f).
           (parse (map raw_date (csv_rows f)) (raw_date (csv_rows f ! i)) = None
              \<longrightarrow> col_date (df ! i) = NaT)
           \<and> (\<forall>t. parse (map raw_date (csv_rows f)) (raw_date (csv_rows f ! i)) = Some t
                 \<longrightarrow> col_date (df ! i) = Timestamp t)
           \<and> col_type (df ! i) = raw_type (csv_rows f ! i)
           \<and> col_category (df ! i) = raw_category (csv_rows f ! i)
           \<and> col_description (df ! i) = raw_description (csv_rows f ! i)
           \<and> col_amount (df ! i) = raw_amount (csv_rows f ! i))"
proof -
  have "load_df parse st = assign_dates parse f"
    using assms by (auto simp: load_df_def assign_dates_def)
  moreover obtain df where "assign_dates parse f = Inr df"
      and "length df = length (csv_rows f)"
      and "\<forall>i<length (csv_rows f).
           col_date (df ! i) =
             (case parse (map raw_date (csv_rows f)) (raw_date (csv_rows f ! i)) of
                Some t \<Rightarrow> Timestamp t | None \<Rightarrow> NaT)
           \<and> col_type (df ! i) = raw_type (csv_rows f ! i)
           \<and> col_category (df ! i) = raw_category (csv_rows f ! i)
           \<and> col_description (df ! i) = raw_description (csv_rows f ! i)
           \<and> col_amount (df ! i) = raw_amount (csv_rows f ! i)"
    using assign_dates_rows [OF assms(4), of parse] by blast
  ultimately show ?thesis by auto
qed

theorem load_keeps_unparseable_dates_witness:
  "file_exists plain_store \<and> 0 < file_size plain_store
   \<and> read_csv plain_store utf_8_sig = Inr frame_three \<and> has_date_column frame_three
   \<and> parse_iso (map raw_date (csv_rows frame_three)) (raw_date (csv_rows frame_three ! 1)) = None
   \<and> (\<exists>df. load_df parse_iso plain_store = Inr df \<and> length df = 3
          \<and> col_date (df ! 0) = Timestamp 19723 \<and> col_date (df ! 1) = NaT
          \<and> col_date (df ! 2) = Timestamp 19723 \<and> col_amount (df ! 1) = 45)"
proof -
  have e: "file_exists plain_store" and s: "0 < file_size plain_store"
    and r: "read_csv plain_store utf_8_sig = Inr frame_three
         \<or> (read_csv plain_store utf_8_sig = Inl UnicodeDecodeError
            \<and> read_csv plain_store TIS_620 = Inr frame_three)"
    and h: "has_date_column frame_three"
    by (simp_all add: plain_store_def frame_three_def)
  have rows: "csv_rows frame_three = [raw_salary, raw_bad_date, raw_salary]"
    by (simp add: frame_three_def)
  have p0: "parse_iso (map raw_date (csv_rows frame_three)) (raw_date raw_salary) = Some 19723"
    and p1: "parse_iso (map raw_date (csv_rows frame_three)) (raw_date raw_bad_date) = None"
    by (simp_all add: parse_iso_def raw_salary_def raw_bad_date_def text_garbage_def
        text_2024_01_01_def)
  obtain df where df: "load_df parse_iso plain_store = Inr df"
      and len: "length df = length (csv_rows frame_three)"
      and each: "\<forall>i<length (csv_rows frame_three).
           (parse_iso (map raw_date (csv_rows frame_three)) (raw_date (csv_rows frame_three ! i)) = None
              \<longrightarrow> col_date (df ! i) = NaT)
           \<and> (\<forall>t. parse_iso (map raw_date (csv_rows frame_three)) (raw_date (csv_rows frame_three ! i)) = Some t
                 \<longrightarrow> col_date (df ! i) = Timestamp t)
           \<and> col_type (df ! i) = raw_type (csv_rows frame_three ! i)
           \<and> col_category (df ! i) = raw_category (csv_rows frame_three ! i)
           \<and> col_description (df ! i) = raw_description (csv_rows frame_three ! i)
           \<and> col_amount (df ! i) = raw_amount (csv_rows frame_three ! i)"
    using load_keeps_unparseable_dates [OF e s r h, of parse_iso] by blast
  have "col_date (df ! 0) = Timestamp 19723" using each p0 by (simp add: rows)
  moreover have "col_date (df ! 1) = NaT" using each p1 by (simp add: rows)
  moreover have "col_date (df ! 2) = Timestamp 19723" using each p0 by (simp add: rows)
  moreover have "col_amount (df ! 1) = 45" using each by (simp add: rows raw_bad_date_def)
  moreover have "length df = 3" using len by (simp add: rows)
  ultimately show ?thesis
    using df e s h p1 by (simp add: rows plain_store_def)
qed

end
